theory Spec2Isabelle
  imports Main "HOL-Library.Word" "HOL-Library.Sublist"
begin

unbundle bit_operations_syntax

section \<open>Library functions called by builder.go\<close>

text \<open>
  Go strings are byte sequences; \<^typ>\<open>string\<close> is a list of 8-bit characters.
  The backslash, Windows' path separator, is the byte 0x5C.
\<close>

abbreviation bslash :: char where
  "bslash \<equiv> CHR 0x5C"

text \<open>
  \<^verbatim>\<open>strings.HasSuffix(s, suffix)\<close>:
  \<^verbatim>\<open>len(s) >= len(suffix) && s[len(s)-len(suffix):] == suffix\<close>.
\<close>

definition HasSuffix :: "string \<Rightarrow> string \<Rightarrow> bool" where
  "HasSuffix s suf = (length suf \<le> length s \<and> drop (length s - length suf) s = suf)"

text \<open>
  \<^verbatim>\<open>strings.IndexByte(s, c)\<close>: the index of the first \<open>c\<close> in \<open>s\<close>, or \<open>-1\<close>.
\<close>

fun IndexByte :: "string \<Rightarrow> char \<Rightarrow> int" where
  "IndexByte [] c = - 1"
| "IndexByte (x # xs) c =
     (if x = c then 0
      else (let i = IndexByte xs c in if i < 0 then - 1 else i + 1))"

text \<open>
  \<^verbatim>\<open>filepath.Base\<close> as Go defines it on Unix: the empty path gives \<open>.\<close>, trailing
  slashes are stripped, the last element is returned, and a path of slashes only
  gives \<open>/\<close>.
\<close>

definition unix_Base :: "string \<Rightarrow> string" where
  "unix_Base path =
     (if path = [] then ''.''
      else (let p1 = rev (dropWhile (\<lambda>c. c = CHR ''/'') (rev path));
                p2 = rev (takeWhile (\<lambda>c. c \<noteq> CHR ''/'') (rev p1))
            in if p2 = [] then ''/'' else p2))"

text \<open>
  The compile-time platform: \<^verbatim>\<open>runtime.GOOS\<close>, \<^verbatim>\<open>filepath.Separator\<close> and the
  platform's \<^verbatim>\<open>filepath.Base\<close>. On Windows \<^verbatim>\<open>filepath.Base\<close> also strips a volume
  name; it is left a parameter there.
\<close>

record platform =
  GOOS :: string
  Separator :: char
  Base :: "string \<Rightarrow> string"

definition linux :: platform where
  "linux = \<lparr>GOOS = ''linux'', Separator = CHR ''/'', Base = unix_Base\<rparr>"

definition windows :: "(string \<Rightarrow> string) \<Rightarrow> platform" where
  "windows base = \<lparr>GOOS = ''windows'', Separator = bslash, Base = base\<rparr>"

text \<open>
  \<^verbatim>\<open>exec.Cmd\<close>, with the two fields builder.go reads: \<open>Path\<close> and \<open>Process\<close>
  (\<open>None\<close> is Go's \<open>nil\<close>: no process was started through this \<open>Cmd\<close>; a process is
  named by its pid).
\<close>

record Cmd =
  Path :: string
  Process :: "nat option"

text \<open>
  \<^verbatim>\<open>exec.Command(name)\<close>: a name that contains a path separator is used directly as
  \<open>Path\<close>; \<open>Process\<close> starts as \<open>nil\<close>.
\<close>

definition exec_Command :: "string \<Rightarrow> Cmd" where
  "exec_Command name = \<lparr>Path = name, Process = None\<rparr>"

text \<open>
  \<^verbatim>\<open>fsnotify.Op\<close> is a \<open>uint32\<close> bit set:
  \<open>Create = 1\<close>, \<open>Write = 2\<close>, \<open>Remove = 4\<close>, \<open>Rename = 8\<close>, \<open>Chmod = 16\<close>.
\<close>

definition Create :: "32 word" where "Create = 1"
definition Write :: "32 word" where "Write = 2"
definition Remove :: "32 word" where "Remove = 4"
definition Rename :: "32 word" where "Rename = 8"
definition Chmod :: "32 word" where "Chmod = 16"

record Event =
  Name :: string
  Op :: "32 word"

section \<open>The builder\<close>

text \<open>
  \<^verbatim>\<open>type builder struct { exts []string; appCmd *exec.Cmd; goCmdArgs []string }\<close>.
  \<open>appCmd\<close> is a pointer: \<open>None\<close> is \<open>nil\<close>. The \<open>Cmd\<close> it points to is reached
  through the builder only, so it is held in place.
\<close>

record builder =
  exts :: "string list"
  appCmd :: "Cmd option"
  goCmdArgs :: "string list"

subsection \<open>newBuilder\<close>

text \<open>
  Lines 37 to 46, the name of the compiled file:
  \<^verbatim>\<open>
  if len(outputName) == 0 { outputName = filepath.Base(wd) }
  if runtime.GOOS == "windows" && !strings.HasSuffix(outputName, ".exe") {
      outputName += ".exe" }
  if strings.IndexByte(outputName, '/') < 0 ||
     strings.IndexByte(outputName, filepath.Separator) < 0 {
      outputName = wd + string(filepath.Separator) + outputName }
  \<close>
\<close>

definition defaultName :: "platform \<Rightarrow> string \<Rightarrow> string \<Rightarrow> string" where
  "defaultName pf wd outputName =
     (if length outputName = 0 then Base pf wd else outputName)"

definition exeName :: "platform \<Rightarrow> string \<Rightarrow> string" where
  "exeName pf outputName =
     (if GOOS pf = ''windows'' \<and> \<not> HasSuffix outputName ''.exe''
      then outputName @ ''.exe'' else outputName)"

definition absName :: "platform \<Rightarrow> string \<Rightarrow> string \<Rightarrow> string" where
  "absName pf wd outputName =
     (if IndexByte outputName CHR ''/'' < 0 \<or> IndexByte outputName (Separator pf) < 0
      then wd @ [Separator pf] @ outputName else outputName)"

definition resolveOutputName :: "platform \<Rightarrow> string \<Rightarrow> string \<Rightarrow> string" where
  "resolveOutputName pf wd outputName =
     absName pf wd (exeName pf (defaultName pf wd outputName))"

text \<open>
  Lines 53 to 57, the arguments of \<^verbatim>\<open>go build\<close>.
\<close>

definition goArgs :: "string \<Rightarrow> string \<Rightarrow> string list" where
  "goArgs mainFiles outputName =
     [''build'', ''-o'', outputName] @ (if length mainFiles > 0 then [mainFiles] else [])"

text \<open>
  Lines 59 to 69, the loop over \<open>exts\<close> that appends to \<open>newExts\<close>:
  \<^verbatim>\<open>
  for _, ext := range exts {
      if len(ext) == 0 { continue }
      if ext[0] != '.' { ext = "." + ext }
      newExts = append(newExts, ext) }
  \<close>
\<close>

fun extsLoop :: "string list \<Rightarrow> string list \<Rightarrow> string list" where
  "extsLoop [] newExts = newExts"
| "extsLoop (ext # rest) newExts =
     (if length ext = 0 then extsLoop rest newExts
      else extsLoop rest
             (newExts @ [if hd ext \<noteq> CHR ''.'' then ''.'' @ ext else ext]))"

definition normExts :: "string list \<Rightarrow> string list" where
  "normExts es = extsLoop es []"

text \<open>
  Lines 71 to 75, the builder that \<open>newBuilder\<close> assembles from a working directory.
\<close>

definition mkBuilder ::
  "platform \<Rightarrow> string \<Rightarrow> string \<Rightarrow> string \<Rightarrow> string list \<Rightarrow> builder" where
  "mkBuilder pf wd mainFiles outputName es =
     (let out = resolveOutputName pf wd outputName
      in \<lparr>exts = normExts es,
          appCmd = Some (exec_Command out),
          goCmdArgs = goArgs mainFiles out\<rparr>)"

text \<open>
  What the operating system answers during start-up: \<^verbatim>\<open>os.Getwd()\<close> (\<open>None\<close> is an
  error), whether \<^verbatim>\<open>fsnotify.NewWatcher()\<close> succeeds, and whether \<^verbatim>\<open>watcher.Add(path)\<close>
  succeeds for a path.
\<close>

record sys =
  Getwd :: "string option"
  NewWatcher :: bool
  AddOk :: "string \<Rightarrow> bool"

text \<open>
  \<open>watch\<close>, lines 140 to 157: \<^verbatim>\<open>os.Exit(2)\<close> when the watcher cannot be made or a path
  cannot be added; otherwise the watched paths, and the loop of lines 159 to 187 starts
  with \<^verbatim>\<open>var buildTime int64\<close>, which is zero.
\<close>

fun addPaths :: "sys \<Rightarrow> string list \<Rightarrow> nat + string list" where
  "addPaths s [] = Inr []"
| "addPaths s (path # rest) =
     (if \<not> AddOk s path then Inl 2
      else (case addPaths s rest of Inl code \<Rightarrow> Inl code | Inr ws \<Rightarrow> Inr (path # ws)))"

definition watch :: "sys \<Rightarrow> string list \<Rightarrow> nat + (string list \<times> 64 word)" where
  "watch s paths =
     (if \<not> NewWatcher s then Inl 2
      else (case addPaths s paths of Inl code \<Rightarrow> Inl code | Inr ws \<Rightarrow> Inr (ws, 0)))"

text \<open>
  \<open>newBuilder\<close>: \<open>Inl 2\<close> is \<^verbatim>\<open>os.Exit(2)\<close>; otherwise the builder, the watched paths
  and the initial \<open>buildTime\<close> of the watch loop. The log lines of the start-up are
  left out.
\<close>

definition newBuilder ::
  "platform \<Rightarrow> sys \<Rightarrow> string \<Rightarrow> string \<Rightarrow> string list \<Rightarrow> string list
     \<Rightarrow> nat + (builder \<times> string list \<times> 64 word)" where
  "newBuilder pf s mainFiles outputName es paths =
     (case Getwd s of
        None \<Rightarrow> Inl 2
      | Some wd \<Rightarrow>
          (let b = mkBuilder pf wd mainFiles outputName es
           in case watch s (paths @ [wd]) of
                Inl code \<Rightarrow> Inl code
              | Inr w \<Rightarrow> Inr (b, w)))"

subsection \<open>isIgnore\<close>

text \<open>
  The loop of lines 86 to 96, with the \<open>return true\<close> of line 98 when it ends:
  \<^verbatim>\<open>
  for _, ext := range b.exts {
      if len(ext) == 0 { continue }
      if ext == "*" { return false }
      if strings.HasSuffix(path, ext) { return false } }
  return true
  \<close>
\<close>

fun scanExts :: "string list \<Rightarrow> string \<Rightarrow> bool" where
  "scanExts [] path = True"
| "scanExts (ext # rest) path =
     (if length ext = 0 then scanExts rest path
      else if ext = ''*'' then False
      else if HasSuffix path ext then False
      else scanExts rest path)"

definition isIgnore :: "builder \<Rightarrow> string \<Rightarrow> bool" where
  "isIgnore b path =
     (if (case appCmd b of None \<Rightarrow> False | Some c \<Rightarrow> Path c = path) then True
      else scanExts (exts b) path)"

subsection \<open>Effects\<close>

text \<open>
  The calls builder.go makes to the outside, in the order it makes them: a log line
  (its severity and, in translation, its text), \<^verbatim>\<open>goCmd.Run()\<close> with the arguments of
  \<open>go\<close>, \<^verbatim>\<open>b.appCmd.Process.Kill()\<close>, the call \<^verbatim>\<open>b.appCmd.Run()\<close>, the process
  that \<open>Run\<close> creates from a path, the wait for its exit, and \<^verbatim>\<open>go b.build()\<close>.
  Each control flow (the watch loop, one build with its restart) is modelled as the
  sequence of its own effects; how concurrent flows interleave is not modelled.
\<close>

datatype level = Info | Erro | Succ | Ignore | Warn

datatype action =
    Log level string
  | GoRun "string list"
  | Kill nat
  | AppRun
  | StartProcess string nat
  | Wait nat
  | GoBuild

text \<open>
  What the outside answers to one build: whether \<open>go build\<close> fails, whether \<open>Kill\<close>
  returns an error, what \<^verbatim>\<open>os.StartProcess\<close> returns if it is called (a new pid, or
  \<open>None\<close> for an error), and whether the wait ends in an error.
\<close>

record outcome =
  goErr :: bool
  killErr :: bool
  startRes :: "nat option"
  waitErr :: bool

text \<open>
  \<^verbatim>\<open>(*exec.Cmd).Run\<close> of Go's \<open>os/exec\<close> is \<open>Start\<close> followed by \<open>Wait\<close>. \<open>Start\<close>
  returns the error \<^verbatim>\<open>exec: already started\<close> when \<^verbatim>\<open>c.Process != nil\<close>; otherwise it
  calls \<^verbatim>\<open>os.StartProcess(c.Path, ...)\<close> and stores the new process in \<open>c.Process\<close>.
  Neither \<open>Kill\<close> nor \<open>Wait\<close> resets \<open>c.Process\<close>: as the documentation of \<open>os/exec\<close>
  says, a \<open>Cmd\<close> cannot be reused after calling its \<open>Run\<close>. Any other failure to
  start is the answer \<open>None\<close> of the outside. The result is whether an error is
  returned, the \<open>Cmd\<close> afterwards, and the effects.
\<close>

definition Cmd_Start :: "Cmd \<Rightarrow> outcome \<Rightarrow> bool \<times> Cmd \<times> action list" where
  "Cmd_Start c oc =
     (if Process c \<noteq> None then (True, c, [])
      else (case startRes oc of
              None \<Rightarrow> (True, c, [])
            | Some pid \<Rightarrow> (False, c\<lparr>Process := Some pid\<rparr>, [StartProcess (Path c) pid])))"

definition Cmd_Run :: "Cmd \<Rightarrow> outcome \<Rightarrow> bool \<times> Cmd \<times> action list" where
  "Cmd_Run c oc =
     (case Cmd_Start c oc of
        (True, c', tr) \<Rightarrow> (True, c', tr)
      | (False, c', tr) \<Rightarrow>
          (waitErr oc, c', tr @ (case Process c' of None \<Rightarrow> [] | Some pid \<Rightarrow> [Wait pid])))"

subsection \<open>restart and build\<close>

text \<open>
  \<open>restart\<close>, lines 119 to 137. With \<open>b.appCmd\<close> nil, \<^verbatim>\<open>b.appCmd.Run()\<close> panics on the
  nil pointer and the deferred function logs the recovered panic.
\<close>

definition killOld :: "Cmd \<Rightarrow> outcome \<Rightarrow> action list" where
  "killOld c oc =
     (case Process c of
        None \<Rightarrow> []
      | Some pid \<Rightarrow>
          [Log Info ''stopping the old process...'', Kill pid]
            @ (if killErr oc then [Log Erro ''kill:''] else []))"

definition restart :: "outcome \<Rightarrow> builder \<Rightarrow> builder \<times> action list" where
  "restart oc b =
     (case appCmd b of
        None \<Rightarrow> (b, [Log Erro ''restart.defer:''])
      | Some c \<Rightarrow>
          (case Cmd_Run c oc of
             (err, c', tr) \<Rightarrow>
               (b\<lparr>appCmd := Some c'\<rparr>,
                killOld c oc @ [AppRun] @ tr
                  @ (if err then [Log Erro ''error when starting the process:''] else []))))"

text \<open>
  \<open>build\<close>, lines 102 to 116.
\<close>

definition build :: "outcome \<Rightarrow> builder \<Rightarrow> builder \<times> action list" where
  "build oc b =
     (if goErr oc
      then (b, [Log Info ''compiling...'', GoRun (''go'' # goCmdArgs b),
                Log Erro ''build failed:''])
      else (case restart oc b of
              (b', tr) \<Rightarrow>
                (b', [Log Info ''compiling...'', GoRun (''go'' # goCmdArgs b),
                      Log Succ ''build succeeded!''] @ tr)))"

text \<open>
  A run of builds one after the other, each with its own answers from the outside.
\<close>

fun builds :: "outcome list \<Rightarrow> builder \<Rightarrow> builder \<times> action list" where
  "builds [] b = (b, [])"
| "builds (oc # ocs) b =
     (case build oc b of
        (b', tr) \<Rightarrow> (case builds ocs b' of (b'', tr') \<Rightarrow> (b'', tr @ tr')))"

subsection \<open>The watch loop\<close>

text \<open>
  One message taken by the \<open>select\<close> of lines 162 to 185: an event, together with what
  \<^verbatim>\<open>time.Now().Unix()\<close> returns at line 174 and at line 179 if these lines are reached,
  or an error of the watcher. \<open>buildTime\<close> is an \<open>int64\<close>: the subtraction of line 174
  wraps around and the comparison is signed.
\<close>

datatype message =
    Events Event "64 word" "64 word"
  | Errors string

fun iteration :: "builder \<Rightarrow> 64 word \<Rightarrow> message \<Rightarrow> 64 word \<times> action list" where
  "iteration b buildTime (Events event now1 now2) =
     (if Op event AND Chmod = Chmod
      then (buildTime, [Log Ignore ''watcher.Events: CHMOD event ignored:''])
      else if isIgnore b (Name event)
      then (buildTime, [Log Ignore ''watcher.Events: file not watched, ignored:''])
      else if sint (now1 - buildTime) \<le> 1
      then (buildTime, [Log Ignore ''watcher.Events: this event is ignored:''])
      else (now2, [Log Info ''watcher.Events: build triggered:'', GoBuild]))"
| "iteration b buildTime (Errors err) = (buildTime, [Log Warn ''watcher.Errors''])"

declare iteration.simps [simp del]

text \<open>
  The \<open>for\<close> loop of line 161 never ends by itself; it is run here on the messages
  that have arrived so far.
\<close>

fun loop :: "builder \<Rightarrow> 64 word \<Rightarrow> message list \<Rightarrow> 64 word \<times> action list" where
  "loop b buildTime [] = (buildTime, [])"
| "loop b buildTime (m # ms) =
     (case iteration b buildTime m of
        (buildTime', tr) \<Rightarrow>
          (case loop b buildTime' ms of (buildTime'', tr') \<Rightarrow> (buildTime'', tr @ tr')))"

section \<open>Notions of the specification\<close>

text \<open>
  Normalising one extension, in the specification's words: a missing leading \<open>.\<close> is
  prepended.
\<close>

definition dotted :: "string \<Rightarrow> string" where
  "dotted ext = (if hd ext \<noteq> CHR ''.'' then CHR ''.'' # ext else ext)"

text \<open>
  A qualifying event passes the test of line 164 and the path filter of line 169. A
  message passes when it is a qualifying event; an error of the watcher never does.
\<close>

definition qualifying :: "builder \<Rightarrow> Event \<Rightarrow> bool" where
  "qualifying b event = (Op event AND Chmod \<noteq> Chmod \<and> \<not> isIgnore b (Name event))"

fun passes :: "builder \<Rightarrow> message \<Rightarrow> bool" where
  "passes b (Events event now1 now2) = qualifying b event"
| "passes b (Errors err) = False"

text \<open>
  An event at time \<open>t\<close>: the clock reads \<open>t\<close> at line 174 and at line 179.
\<close>

definition eventAt :: "Event \<Rightarrow> 64 word \<Rightarrow> message" where
  "eventAt event t = Events event t t"

abbreviation ignored :: "action list" where
  "ignored \<equiv> [Log Ignore ''watcher.Events: this event is ignored:'']"

abbreviation triggered :: "action list" where
  "triggered \<equiv> [Log Info ''watcher.Events: build triggered:'', GoBuild]"

section \<open>A concrete run\<close>

text \<open>
  A Linux machine with working directory \<open>/home/u/app\<close> where the watcher can be made
  and every path can be added; the builder that \<open>newBuilder\<close> makes there for the
  extension list \<open>["go"]\<close> (\<open>app0\<close>) and for \<open>["*"]\<close> (\<open>star0\<close>), with no output name
  given; \<open>app1\<close> is \<open>app0\<close> after its program was started as process 101.
\<close>

definition sys0 :: sys where
  "sys0 = \<lparr>Getwd = Some ''/home/u/app'', NewWatcher = True, AddOk = (\<lambda>path. True)\<rparr>"

definition app0 :: builder where
  "app0 = \<lparr>exts = [''.go''],
           appCmd = Some \<lparr>Path = ''/home/u/app/app'', Process = None\<rparr>,
           goCmdArgs = [''build'', ''-o'', ''/home/u/app/app'']\<rparr>"

definition star0 :: builder where
  "star0 = \<lparr>exts = [''.*''],
            appCmd = Some \<lparr>Path = ''/home/u/app/app'', Process = None\<rparr>,
            goCmdArgs = [''build'', ''-o'', ''/home/u/app/app'']\<rparr>"

definition app1 :: builder where
  "app1 = \<lparr>exts = [''.go''],
           appCmd = Some \<lparr>Path = ''/home/u/app/app'', Process = Some 101\<rparr>,
           goCmdArgs = [''build'', ''-o'', ''/home/u/app/app'']\<rparr>"

text \<open>
  The outside lets \<open>go build\<close> succeed, \<open>Kill\<close> succeed, the process start with the
  given pid, and the wait end without an error.
\<close>

definition started :: "nat \<Rightarrow> outcome" where
  "started pid = \<lparr>goErr = False, killErr = False, startRes = Some pid, waitErr = False\<rparr>"

text \<open>
  A Windows working directory, \<open>proj\<close> on drive \<open>C:\<close>, and an absolute output
  name, \<open>app.exe\<close> in the directory \<open>out\<close> of drive \<open>C:\<close>, both written with the
  backslash as separator.
\<close>

definition winWd :: string where
  "winWd = ''C:'' @ [bslash] @ ''proj''"

definition winOut :: string where
  "winOut = ''C:'' @ [bslash] @ ''out'' @ [bslash] @ ''app.exe''"

definition mainGo :: Event where
  "mainGo = \<lparr>Name = ''/home/u/app/main.go'', Op = Write\<rparr>"

definition readme :: Event where
  "readme = \<lparr>Name = ''/home/u/app/README'', Op = Write\<rparr>"

definition chmodGo :: Event where
  "chmodGo = \<lparr>Name = ''/home/u/app/main.go'', Op = Chmod\<rparr>"

section \<open>Library functions\<close>

lemma IndexByte_neg_iff: "IndexByte s c < 0 \<longleftrightarrow> c \<notin> set s"
  by (induction s) (auto simp: Let_def)

lemma HasSuffix_iff_suffix: "HasSuffix s suf \<longleftrightarrow> suffix suf s"
  unfolding HasSuffix_def
  by (metis append_eq_conv_conj diff_add_inverse2 length_append suffix_def
      suffix_length_le suffix_drop)

lemma sint_diff_64:
  fixes a b :: "64 word"
  assumes "- (2 ^ 63) \<le> sint a - sint b" and "sint a - sint b < 2 ^ 63"
  shows "sint (a - b) = sint a - sint b"
  using assms by (simp add: sint_word_ariths signed_take_bit_int_eq_self)

section \<open>The extension list\<close>

lemma extsLoop_eq:
  "extsLoop es newExts = newExts @ map dotted (filter (\<lambda>ext. ext \<noteq> []) es)"
  by (induction es arbitrary: newExts) (auto simp: dotted_def)

lemma normExts_eq: "normExts es = map dotted (filter (\<lambda>ext. ext \<noteq> []) es)"
  by (simp add: normExts_def extsLoop_eq)

lemma normExts_dot: "ext \<in> set (normExts es) \<Longrightarrow> ext \<noteq> [] \<and> hd ext = CHR ''.''"
  by (auto simp: normExts_eq dotted_def)

text \<open>
  No list of extensions leaves the wildcard in the builder: \<open>newBuilder\<close> turns \<open>*\<close>
  into \<open>.*\<close>.
\<close>

lemma wildcard_not_stored: "''*'' \<notin> set (normExts es)"
  using normExts_dot [of "''*''" es] by auto

text \<open>
  C9: normalising the extensions drops the empty strings, keeps the others in their
  order, prepends \<open>.\<close> to each one that lacks it, and so every extension kept starts
  with \<open>.\<close>.
\<close>

theorem normExts_normalizes:
  "normExts es = map dotted (filter (\<lambda>ext. ext \<noteq> []) es) \<and>
   (\<forall>ext \<in> set (normExts es). ext \<noteq> [] \<and> hd ext = CHR ''.'')"
  using normExts_eq normExts_dot by blast

theorem normExts_normalizes_witness:
  "normExts [''go'', [], ''.html'', ''*''] = [''.go'', ''.html'', ''.*''] \<and>
   list_all (\<lambda>ext. ext \<noteq> [] \<and> hd ext = CHR ''.'') (normExts [''go'', [], ''.html'', ''*''])"
  using normExts_normalizes [of "[''go'', [], ''.html'', ''*'']"]
  by (simp add: dotted_def)

section \<open>The output name\<close>

lemma resolveOutputName_linux:
  "resolveOutputName linux wd outputName =
     (let name = (if outputName = [] then unix_Base wd else outputName)
      in if CHR ''/'' \<in> set name then name else wd @ ''/'' @ name)"
  by (simp add: resolveOutputName_def absName_def exeName_def defaultName_def
        linux_def IndexByte_neg_iff Let_def)

lemma resolveOutputName_windows:
  "resolveOutputName (windows base) wd outputName =
     (let name = (if outputName = [] then base wd else outputName);
          exe = (if HasSuffix name ''.exe'' then name else name @ ''.exe'')
      in if CHR ''/'' \<in> set exe \<and> bslash \<in> set exe then exe
         else wd @ [bslash] @ exe)"
  by (simp add: resolveOutputName_def absName_def exeName_def defaultName_def
        windows_def IndexByte_neg_iff Let_def)

text \<open>
  The resolved name always contains a path separator, so \<open>exec.Command\<close> takes it as
  the \<open>Path\<close> of the \<open>Cmd\<close> without looking it up.
\<close>

lemma absName_has_separator:
  "CHR ''/'' \<in> set (absName pf wd name) \<or> Separator pf \<in> set (absName pf wd name)"
  by (simp add: absName_def IndexByte_neg_iff)

lemma resolveOutputName_has_separator:
  "CHR ''/'' \<in> set (resolveOutputName pf wd outputName) \<or>
   Separator pf \<in> set (resolveOutputName pf wd outputName)"
  unfolding resolveOutputName_def by (rule absName_has_separator)

text \<open>
  C7: the output name is prefixed with the working directory if and only if it has no
  path separator. On Windows the code does otherwise: line 44 joins its two tests with
  \<open>||\<close>, so a name with backslashes and no slash is prefixed although it has a
  separator. The absolute name \<open>winOut\<close> becomes the working directory, a backslash
  and \<open>winOut\<close>.
\<close>

theorem windows_separator_name_prefixed:
  "bslash \<in> set winOut \<and>
   resolveOutputName (windows base) winWd winOut = winWd @ [bslash] @ winOut"
  by (simp add: resolveOutputName_def absName_def exeName_def defaultName_def
        windows_def winWd_def winOut_def HasSuffix_def)

section \<open>The builder of the concrete run\<close>

lemma resolve_app0: "resolveOutputName linux ''/home/u/app'' [] = ''/home/u/app/app''"
  by (simp add: resolveOutputName_def absName_def exeName_def defaultName_def linux_def
        unix_Base_def)

lemma newBuilder_app0:
  "newBuilder linux sys0 [] [] [''go''] [] = Inr (app0, [''/home/u/app''], 0)"
  by (simp add: newBuilder_def mkBuilder_def resolve_app0 goArgs_def normExts_def
        exec_Command_def watch_def sys0_def app0_def Let_def)

lemma newBuilder_star0:
  "newBuilder linux sys0 [] [] [''*''] [] = Inr (star0, [''/home/u/app''], 0)"
  by (simp add: newBuilder_def mkBuilder_def resolve_app0 goArgs_def normExts_def
        exec_Command_def watch_def sys0_def star0_def Let_def)

section \<open>The path filter\<close>

lemma scanExts_match:
  "ext \<in> set es \<Longrightarrow> ext \<noteq> [] \<Longrightarrow> HasSuffix P ext \<Longrightarrow> \<not> scanExts es P"
  by (induction es) auto

lemma scanExts_nomatch:
  "\<forall>ext \<in> set es. \<not> HasSuffix P ext \<Longrightarrow> ''*'' \<notin> set es \<Longrightarrow> scanExts es P"
  by (induction es) auto

text \<open>
  C4: \<open>isIgnore\<close> is an allow-list. In a builder whose extensions are non-empty, as
  \<open>newBuilder\<close> leaves them, the path of the build output is ignored whatever its
  extension; any other path that ends in a configured extension is not ignored; a path
  that ends in no configured extension, with no wildcard configured, is ignored; and
  with no extension configured every path is ignored.
\<close>

theorem isIgnore_allow_list:
  assumes "appCmd b = Some c" and "[] \<notin> set (exts b)"
  shows "isIgnore b (Path c) \<and>
         (\<forall>P ext. P \<noteq> Path c \<and> ext \<in> set (exts b) \<and> HasSuffix P ext \<longrightarrow> \<not> isIgnore b P) \<and>
         (\<forall>P. (\<forall>ext \<in> set (exts b). \<not> HasSuffix P ext) \<and> ''*'' \<notin> set (exts b)
                \<longrightarrow> isIgnore b P) \<and>
         (exts b = [] \<longrightarrow> (\<forall>P. isIgnore b P))"
proof -
  have out: "isIgnore b (Path c)"
    using assms(1) by (simp add: isIgnore_def)
  have match: "\<not> isIgnore b P"
    if "P \<noteq> Path c" "ext \<in> set (exts b)" "HasSuffix P ext" for P ext
  proof -
    from that(2) assms(2) have "ext \<noteq> []" by metis
    with that(2,3) have "\<not> scanExts (exts b) P" by (simp add: scanExts_match)
    with that(1) assms(1) show ?thesis by (simp add: isIgnore_def)
  qed
  have nomatch: "isIgnore b P"
    if "\<forall>ext \<in> set (exts b). \<not> HasSuffix P ext" "''*'' \<notin> set (exts b)" for P
  proof -
    from that have "scanExts (exts b) P" by (rule scanExts_nomatch)
    then show ?thesis by (simp add: isIgnore_def)
  qed
  have none: "isIgnore b P" if "exts b = []" for P
    using that by (simp add: isIgnore_def)
  show ?thesis
  proof (intro conjI allI impI)
    show "isIgnore b (Path c)" by (rule out)
  next
    fix P ext
    assume "P \<noteq> Path c \<and> ext \<in> set (exts b) \<and> HasSuffix P ext"
    then show "\<not> isIgnore b P" using match by metis
  next
    fix P
    assume "(\<forall>ext \<in> set (exts b). \<not> HasSuffix P ext) \<and> ''*'' \<notin> set (exts b)"
    then show "isIgnore b P" using nomatch by metis
  next
    fix P
    assume "exts b = []"
    then show "isIgnore b P" by (rule none)
  qed
qed

theorem isIgnore_allow_list_witness:
  "appCmd app0 = Some \<lparr>Path = ''/home/u/app/app'', Process = None\<rparr> \<and>
   [] \<notin> set (exts app0) \<and> ''.go'' \<in> set (exts app0) \<and> ''*'' \<notin> set (exts app0) \<and>
   HasSuffix ''/home/u/app/main.go'' ''.go'' \<and>
   exts app0 = [''.go''] \<and> \<not> HasSuffix ''/home/u/app/README'' ''.go'' \<and>
   isIgnore app0 ''/home/u/app/app'' \<and>
   \<not> isIgnore app0 ''/home/u/app/main.go'' \<and>
   isIgnore app0 ''/home/u/app/README''"
  using isIgnore_allow_list [of app0 "\<lparr>Path = ''/home/u/app/app'', Process = None\<rparr>"]
  by (simp add: app0_def HasSuffix_def isIgnore_def)

text \<open>
  What the path filter does when the extension list given to \<open>newBuilder\<close> is the
  wildcard alone: it lets through the paths that end in \<open>.*\<close>, and no others.
\<close>

lemma wildcard_builder_isIgnore:
  "isIgnore (mkBuilder pf wd mainFiles outputName [''*'']) P \<longleftrightarrow>
     P = resolveOutputName pf wd outputName \<or> \<not> HasSuffix P ''.*''"
  by (simp add: mkBuilder_def Let_def isIgnore_def normExts_def exec_Command_def eq_commute)

text \<open>
  C2: with the wildcard \<open>*\<close> in the extension list given to \<open>newBuilder\<close>, no path but
  the build output is ignored. The code does otherwise: \<open>newBuilder\<close> stores \<open>.*\<close>
  for \<open>*\<close>, line 90 of \<open>isIgnore\<close> compares with \<open>*\<close> and never finds it, and the
  source file \<open>main.go\<close>, which is not the build output, is ignored.
\<close>

theorem wildcard_supplied_still_ignores:
  "newBuilder linux sys0 [] [] [''*''] [] = Inr (star0, [''/home/u/app''], 0) \<and>
   exts star0 = [''.*''] \<and>
   appCmd star0 = Some \<lparr>Path = ''/home/u/app/app'', Process = None\<rparr> \<and>
   isIgnore star0 ''/home/u/app/main.go''"
  by (simp add: newBuilder_star0) (simp add: star0_def isIgnore_def HasSuffix_def)

section \<open>The watch loop\<close>

lemma iteration_qualifying:
  assumes "qualifying b event"
  shows "iteration b buildTime (Events event now1 now2) =
           (if sint (now1 - buildTime) \<le> 1 then (buildTime, ignored) else (now2, triggered))"
  using assms by (simp add: qualifying_def iteration.simps)

lemma iteration_not_passes:
  assumes "\<not> passes b m"
  shows "fst (iteration b buildTime m) = buildTime \<and>
         GoBuild \<notin> set (snd (iteration b buildTime m))"
  using assms by (cases m) (auto simp: qualifying_def iteration.simps)

lemma iteration_no_build:
  assumes "GoBuild \<notin> set (snd (iteration b buildTime m))"
  shows "fst (iteration b buildTime m) = buildTime"
  using assms by (cases m) (auto simp: iteration.simps split: if_splits)

lemma loop_append:
  "loop b buildTime (ms @ ms') =
     (case loop b buildTime ms of
        (buildTime', tr) \<Rightarrow>
          (case loop b buildTime' ms' of (buildTime'', tr') \<Rightarrow> (buildTime'', tr @ tr')))"
  by (induction ms arbitrary: buildTime) (auto split: prod.splits)

text \<open>
  \<open>buildTime\<close> changes only when a build is triggered.
\<close>

lemma loop_no_build:
  assumes "GoBuild \<notin> set (snd (loop b buildTime ms))"
  shows "fst (loop b buildTime ms) = buildTime"
  using assms
proof (induction ms arbitrary: buildTime)
  case Nil
  then show ?case by simp
next
  case (Cons m ms)
  obtain bt1 tr1 where it: "iteration b buildTime m = (bt1, tr1)"
    by (cases "iteration b buildTime m")
  obtain bt2 tr2 where lp: "loop b bt1 ms = (bt2, tr2)"
    by (cases "loop b bt1 ms")
  from Cons.prems it lp have "GoBuild \<notin> set tr1" "GoBuild \<notin> set tr2" by auto
  with it lp iteration_no_build [of b buildTime m] Cons.IH [of bt1] show ?case by auto
qed

lemma loop_not_passes:
  assumes "\<forall>m \<in> set ms. \<not> passes b m"
  shows "fst (loop b buildTime ms) = buildTime \<and> GoBuild \<notin> set (snd (loop b buildTime ms))"
  using assms
proof (induction ms)
  case Nil
  then show ?case by simp
next
  case (Cons m ms)
  then have "fst (iteration b buildTime m) = buildTime"
    "GoBuild \<notin> set (snd (iteration b buildTime m))"
    using iteration_not_passes [of b m buildTime] by auto
  with Cons show ?case by (auto split: prod.splits)
qed

lemma qualifying_mainGo: "qualifying app0 mainGo"
  by (simp add: qualifying_def app0_def mainGo_def Write_def Chmod_def isIgnore_def
        HasSuffix_def)

lemma not_qualifying_readme: "\<not> qualifying app0 readme"
  by (simp add: qualifying_def app0_def readme_def Write_def Chmod_def isIgnore_def
        HasSuffix_def)

lemma not_qualifying_chmodGo: "\<not> qualifying app0 chmodGo"
  by (simp add: qualifying_def chmodGo_def)

text \<open>
  C8: an event whose operation has the \<open>Chmod\<close> bit, so every permission-only event,
  is dropped at line 164: whatever the builder, the time of the last build and the
  clock, the iteration logs that the event is ignored, triggers no build and leaves
  \<open>buildTime\<close> as it was.
\<close>

theorem chmod_event_discarded:
  assumes "Op event AND Chmod = Chmod"
  shows "iteration b buildTime (Events event now1 now2)
           = (buildTime, [Log Ignore ''watcher.Events: CHMOD event ignored:''])"
  using assms by (simp add: iteration.simps)

theorem chmod_event_discarded_witness:
  "Op chmodGo AND Chmod = Chmod \<and>
   iteration app0 0 (Events chmodGo 100 100)
     = (0, [Log Ignore ''watcher.Events: CHMOD event ignored:'']) \<and>
   iteration app0 0 (Events mainGo 100 100) = (100, triggered)"
  using chmod_event_discarded [of chmodGo app0 0 100 100]
    iteration_qualifying [OF qualifying_mainGo, of 0 100 100]
  by (simp add: chmodGo_def)

text \<open>
  C10: \<open>watch\<close> starts the loop with \<open>buildTime = 0\<close>. After any messages that do
  not pass, the first qualifying event triggers a build when the clock at line 174 reads
  more than 1, and \<open>buildTime\<close> becomes the reading of line 179.
\<close>

theorem first_qualifying_event_fires:
  assumes "watch s paths = Inr (ws, buildTime)"
    and "\<forall>m \<in> set pre. \<not> passes b m"
    and "qualifying b event"
    and "1 < sint now1"
  shows "buildTime = 0 \<and>
         GoBuild \<notin> set (snd (loop b buildTime pre)) \<and>
         loop b buildTime (pre @ [Events event now1 now2])
           = (now2, snd (loop b buildTime pre) @ triggered)"
proof -
  from assms(1) have zero: "buildTime = 0"
    by (auto simp: watch_def split: if_splits sum.splits)
  from assms(2) have pre: "fst (loop b 0 pre) = 0" "GoBuild \<notin> set (snd (loop b 0 pre))"
    using loop_not_passes [of pre b 0] by simp_all
  from iteration_qualifying [OF assms(3), of 0 now1 now2] assms(4)
  have "iteration b 0 (Events event now1 now2) = (now2, triggered)"
    by simp
  moreover obtain tr where "loop b 0 pre = (0, tr)"
    using pre(1) by (cases "loop b 0 pre") simp
  ultimately have "loop b 0 (pre @ [Events event now1 now2])
                     = (now2, snd (loop b 0 pre) @ triggered)"
    by (simp add: loop_append)
  with zero pre(2) show ?thesis by simp
qed

theorem first_qualifying_event_fires_witness:
  "watch sys0 [''/home/u/app''] = Inr ([''/home/u/app''], 0) \<and>
   \<not> passes app0 (Errors ''overflow'') \<and> \<not> passes app0 (Events chmodGo 2 2) \<and>
   \<not> passes app0 (Events readme 2 2) \<and>
   qualifying app0 mainGo \<and> 1 < sint (2 :: 64 word) \<and>
   loop app0 0 ([Errors ''overflow'', Events chmodGo 2 2, Events readme 2 2]
                  @ [Events mainGo 2 3])
     = (3, snd (loop app0 0 [Errors ''overflow'', Events chmodGo 2 2, Events readme 2 2])
             @ triggered)"
proof -
  have w: "watch sys0 [''/home/u/app''] = Inr ([''/home/u/app''], 0)"
    by (simp add: watch_def sys0_def)
  have p: "\<forall>m \<in> set [Errors ''overflow'', Events chmodGo 2 2, Events readme 2 2].
             \<not> passes app0 m"
    by (simp add: not_qualifying_readme not_qualifying_chmodGo)
  have n: "1 < sint (2 :: 64 word)" by simp
  from first_qualifying_event_fires [OF w p qualifying_mainGo n, of 3] w p qualifying_mainGo n
  show ?thesis by simp
qed

text \<open>
  C3: the debouncer measures from the last accepted trigger, in the whole seconds that
  \<open>Unix()\<close> returns. Take two qualifying events, the first one accepted (its reading
  \<open>n1\<close> at line 174 is more than 1 after \<open>buildTime\<close>) and stamped with the reading
  \<open>s1\<close> of line 179, and no build triggered by the messages between them. When the
  reading \<open>n2\<close> of the second at line 174 is at most 1 after \<open>s1\<close>, only the first
  triggers a build and \<open>buildTime\<close> stays \<open>s1\<close>; when it is more than 1 after \<open>s1\<close>,
  both do and \<open>buildTime\<close> becomes the reading \<open>s2\<close> of line 179. The difference of
  \<open>n2\<close> and \<open>s1\<close> is one that an \<open>int64\<close> holds.
\<close>

theorem debounce_after_accepted:
  assumes "qualifying b e1" and "qualifying b e2"
    and "1 < sint (n1 - buildTime)"
    and "- (2 ^ 63) \<le> sint n2 - sint s1" and "sint n2 - sint s1 < 2 ^ 63"
    and "GoBuild \<notin> set (snd (loop b s1 ms))"
  shows "loop b buildTime (Events e1 n1 s1 # ms @ [Events e2 n2 s2]) =
           (if sint n2 - sint s1 \<le> 1
            then (s1, triggered @ snd (loop b s1 ms) @ ignored)
            else (s2, triggered @ snd (loop b s1 ms) @ triggered))"
proof -
  from iteration_qualifying [OF assms(1), of buildTime n1 s1] assms(3)
  have first: "iteration b buildTime (Events e1 n1 s1) = (s1, triggered)"
    by simp
  obtain tr where mid: "loop b s1 ms = (s1, tr)"
    using loop_no_build [OF assms(6)] by (cases "loop b s1 ms") simp
  have "sint (n2 - s1) = sint n2 - sint s1"
    using assms(4,5) by (rule sint_diff_64)
  with iteration_qualifying [OF assms(2), of s1 n2 s2]
  have second: "iteration b s1 (Events e2 n2 s2) =
                  (if sint n2 - sint s1 \<le> 1 then (s1, ignored) else (s2, triggered))"
    by simp
  show ?thesis
    by (simp add: first loop_append mid second)
qed

theorem debounce_after_accepted_witness:
  "qualifying app0 mainGo \<and> 1 < sint (100 - 0 :: 64 word) \<and>
   - (2 ^ 63) \<le> sint (102 :: 64 word) - sint (100 :: 64 word) \<and>
   sint (102 :: 64 word) - sint (100 :: 64 word) < 2 ^ 63 \<and>
   GoBuild \<notin> set (snd (loop app0 100 [eventAt readme 101])) \<and>
   loop app0 0 (Events mainGo 100 100 # [eventAt readme 101] @ [Events mainGo 101 101])
     = (100, triggered @ snd (loop app0 100 [eventAt readme 101]) @ ignored) \<and>
   loop app0 0 (Events mainGo 100 100 # [eventAt readme 101] @ [Events mainGo 102 103])
     = (103, triggered @ snd (loop app0 100 [eventAt readme 101]) @ triggered)"
proof -
  have a: "1 < sint (100 - 0 :: 64 word)" by simp
  have m: "GoBuild \<notin> set (snd (loop app0 100 [eventAt readme 101]))"
    using not_qualifying_readme
    by (simp add: eventAt_def iteration.simps qualifying_def readme_def Write_def Chmod_def)
  have r1: "- (2 ^ 63) \<le> sint (101 :: 64 word) - sint (100 :: 64 word)" by simp
  have r2: "sint (101 :: 64 word) - sint (100 :: 64 word) < 2 ^ 63" by simp
  have s1: "- (2 ^ 63) \<le> sint (102 :: 64 word) - sint (100 :: 64 word)" by simp
  have s2: "sint (102 :: 64 word) - sint (100 :: 64 word) < 2 ^ 63" by simp
  from debounce_after_accepted [OF qualifying_mainGo qualifying_mainGo a r1 r2 m, of 101]
       debounce_after_accepted [OF qualifying_mainGo qualifying_mainGo a s1 s2 m, of 103]
       qualifying_mainGo a s1 s2 m
  show ?thesis by simp
qed

text \<open>
  Without the condition that the first event is accepted the statement fails. After a
  build triggered at time 99, the qualifying events at times 100 and 101 are 1 apart
  with no accepted trigger between them, and it is the second that triggers a build,
  not the first: 100 is within 1 of 99, and 101 is measured from 99.
\<close>

theorem debounce_first_suppressed_counterexample:
  "qualifying app0 mainGo \<and>
   sint (101 :: 64 word) - sint (100 :: 64 word) = 1 \<and>
   iteration app0 99 (eventAt mainGo 100) = (99, ignored) \<and>
   iteration app0 99 (eventAt mainGo 101) = (101, triggered) \<and>
   loop app0 0 [eventAt mainGo 99, eventAt mainGo 100, eventAt mainGo 101]
     = (101, triggered @ ignored @ triggered)"
proof -
  have i0: "iteration app0 0 (eventAt mainGo 99) = (99, triggered)"
    using iteration_qualifying [OF qualifying_mainGo, of 0 99 99] by (simp add: eventAt_def)
  have i1: "iteration app0 99 (eventAt mainGo 100) = (99, ignored)"
    using iteration_qualifying [OF qualifying_mainGo, of 99 100 100] by (simp add: eventAt_def)
  have i2: "iteration app0 99 (eventAt mainGo 101) = (101, triggered)"
    using iteration_qualifying [OF qualifying_mainGo, of 99 101 101] by (simp add: eventAt_def)
  show ?thesis
    by (simp add: qualifying_mainGo i0 i1 i2)
qed

text \<open>
  The distance is measured from the reading of line 179 of the accepted event, not from
  its reading of line 174: when the clock moves from 100 to 101 between the two lines,
  an event that reads 102 at line 174 is suppressed.
\<close>

lemma debounce_readings_differ:
  "loop app0 0 [Events mainGo 100 101, Events mainGo 102 102] = (101, triggered @ ignored)"
proof -
  have i0: "iteration app0 0 (Events mainGo 100 101) = (101, triggered)"
    using iteration_qualifying [OF qualifying_mainGo, of 0 100 101] by simp
  have i1: "iteration app0 101 (Events mainGo 102 102) = (101, ignored)"
    using iteration_qualifying [OF qualifying_mainGo, of 101 102 102] by simp
  show ?thesis
    by (simp add: i0 i1)
qed

section \<open>restart and build\<close>

text \<open>
  A restart through a \<open>Cmd\<close> that has started no process yet: no \<open>Kill\<close>, then
  \<open>Run\<close>, which starts the process when the operating system allows it.
\<close>

lemma restart_fresh:
  assumes "appCmd b = Some c" and "Process c = None"
  shows "snd (restart oc b) =
           AppRun # (case startRes oc of
                       None \<Rightarrow> [Log Erro ''error when starting the process:'']
                     | Some pid \<Rightarrow>
                         [StartProcess (Path c) pid, Wait pid]
                           @ (if waitErr oc
                              then [Log Erro ''error when starting the process:'']
                              else []))"
  using assms
  by (simp add: restart_def Cmd_Run_def Cmd_Start_def killOld_def split: option.splits)

text \<open>
  A restart through a \<open>Cmd\<close> that has started a process: \<open>Kill\<close> is called on that
  process, \<open>Run\<close> is called whether or not \<open>Kill\<close> fails, \<open>Run\<close> returns an error
  without starting anything, and the builder is as before.
\<close>

lemma restart_started:
  assumes "appCmd b = Some c" and "Process c = Some pid"
  shows "restart oc b =
           (b, [Log Info ''stopping the old process...'', Kill pid]
                 @ (if killErr oc then [Log Erro ''kill:''] else [])
                 @ [AppRun, Log Erro ''error when starting the process:''])"
  using assms by (simp add: restart_def Cmd_Run_def Cmd_Start_def killOld_def)

lemma build_started:
  assumes "appCmd b = Some c" and "Process c = Some pid"
  shows "fst (build oc b) = b \<and> StartProcess path q \<notin> set (snd (build oc b))"
  by (simp add: build_def restart_started [OF assms])

text \<open>
  Once the program has been started, no later build starts it again, whatever the
  outside answers.
\<close>

lemma builds_started:
  assumes "appCmd b = Some c" and "Process c = Some pid"
  shows "fst (builds ocs b) = b \<and> StartProcess path q \<notin> set (snd (builds ocs b))"
proof (induction ocs)
  case Nil
  show ?case by simp
next
  case (Cons oc ocs)
  obtain tr where b1: "build oc b = (b, tr)" "StartProcess path q \<notin> set tr"
    using build_started [OF assms, of oc path q] by (cases "build oc b") simp
  with Cons show ?case by (cases "builds ocs b") simp
qed

text \<open>
  C1: every restart starts a new process from the resolved output path, the second and
  later ones too. The code does otherwise: \<open>newBuilder\<close> makes one \<open>exec.Cmd\<close> and
  \<open>restart\<close> calls \<open>Run\<close> on it each time, and a \<open>Cmd\<close> cannot be used again once
  it has started a process. The first restart starts process 101; the second one,
  with the operating system ready to start process 102, kills 101, gets an error from
  \<open>Run\<close> and starts nothing.
\<close>

theorem restart_second_launches_nothing:
  "newBuilder linux sys0 [] [] [''go''] [] = Inr (app0, [''/home/u/app''], 0) \<and>
   restart (started 101) app0
     = (app1, [AppRun, StartProcess ''/home/u/app/app'' 101, Wait 101]) \<and>
   restart (started 102) app1
     = (app1, [Log Info ''stopping the old process...'', Kill 101, AppRun,
               Log Erro ''error when starting the process:''])"
  by (simp add: newBuilder_app0)
     (simp add: restart_def app0_def app1_def started_def Cmd_Run_def Cmd_Start_def
        killOld_def)

text \<open>
  C5: after a successful \<open>go build\<close> the effects of \<open>build\<close> are those of exactly one
  \<open>restart\<close>. With a non-nil \<open>appCmd\<close> that restart calls \<open>Run\<close> once; when a process
  was started before, it first calls \<open>Kill\<close> on it, and \<open>Run\<close> is called after that
  whether \<open>Kill\<close> fails or not.
\<close>

theorem build_success_one_restart:
  assumes "\<not> goErr oc"
  shows "build oc b =
           (fst (restart oc b),
            [Log Info ''compiling...'', GoRun (''go'' # goCmdArgs b),
             Log Succ ''build succeeded!''] @ snd (restart oc b)) \<and>
         (\<forall>c. appCmd b = Some c \<longrightarrow>
            count_list (snd (build oc b)) AppRun = 1 \<and>
            (\<forall>pid. Process c = Some pid \<longrightarrow>
               (\<exists>post. snd (restart oc b) =
                  [Log Info ''stopping the old process...'', Kill pid]
                    @ (if killErr oc then [Log Erro ''kill:''] else [])
                    @ AppRun # post)))"
proof -
  have eq: "build oc b =
           (fst (restart oc b),
            [Log Info ''compiling...'', GoRun (''go'' # goCmdArgs b),
             Log Succ ''build succeeded!''] @ snd (restart oc b))"
    using assms by (simp add: build_def split: prod.splits)
  have one: "count_list (snd (build oc b)) AppRun = 1" if c: "appCmd b = Some c" for c
  proof (cases "Process c")
    case None
    show ?thesis
      by (simp add: eq restart_fresh [OF c None] split: option.splits)
  next
    case (Some pid)
    show ?thesis
      by (simp add: eq restart_started [OF c Some])
  qed
  have kill: "\<exists>post. snd (restart oc b) =
                  [Log Info ''stopping the old process...'', Kill pid]
                    @ (if killErr oc then [Log Erro ''kill:''] else [])
                    @ AppRun # post"
    if "appCmd b = Some c" "Process c = Some pid" for c pid
    by (simp add: restart_started [OF that])
  from eq one kill show ?thesis by blast
qed

theorem build_success_one_restart_witness:
  "\<not> goErr (started 102\<lparr>killErr := True\<rparr>) \<and>
   appCmd app1 = Some \<lparr>Path = ''/home/u/app/app'', Process = Some 101\<rparr> \<and>
   build (started 102\<lparr>killErr := True\<rparr>) app1 =
     (app1,
      [Log Info ''compiling...'', GoRun [''go'', ''build'', ''-o'', ''/home/u/app/app''],
       Log Succ ''build succeeded!'', Log Info ''stopping the old process...'', Kill 101,
       Log Erro ''kill:'', AppRun, Log Erro ''error when starting the process:'']) \<and>
   count_list (snd (build (started 102\<lparr>killErr := True\<rparr>) app1)) AppRun = 1"
  using build_success_one_restart [of "started 102\<lparr>killErr := True\<rparr>" app1]
  by (simp add: started_def app1_def restart_def Cmd_Run_def Cmd_Start_def killOld_def)

text \<open>
  C6: when \<open>go build\<close> fails, \<open>build\<close> logs the error and returns: the builder and
  with it the running process are as before, and there is no \<open>Kill\<close>, no call of
  \<open>Run\<close> and no new process.
\<close>

theorem build_failure_no_restart:
  assumes "goErr oc"
  shows "build oc b =
           (b, [Log Info ''compiling...'', GoRun (''go'' # goCmdArgs b),
                Log Erro ''build failed:'']) \<and>
         AppRun \<notin> set (snd (build oc b)) \<and>
         (\<forall>pid. Kill pid \<notin> set (snd (build oc b))) \<and>
         (\<forall>path pid. StartProcess path pid \<notin> set (snd (build oc b)))"
  using assms by (simp add: build_def)

theorem build_failure_no_restart_witness:
  "goErr (started 102\<lparr>goErr := True\<rparr>) \<and>
   build (started 102\<lparr>goErr := True\<rparr>) app1 =
     (app1,
      [Log Info ''compiling...'', GoRun [''go'', ''build'', ''-o'', ''/home/u/app/app''],
       Log Erro ''build failed:''])"
  using build_failure_no_restart [of "started 102\<lparr>goErr := True\<rparr>" app1]
  by (simp add: started_def app1_def)

end
